theory Spec2Isabelle
  imports Main "HOL-Library.Word" "HOL-Library.Sublist"
begin

unbundle bit_operations_syntax

section \<open>Python values\<close>

text \<open>
  The values that the rows of a polars frame hold once converted with \<open>to_dicts\<close>:
  \<open>None\<close>, \<open>int\<close>, \<open>str\<close>, \<open>Decimal\<close> with two fractional digits (the result of a cast to
  \<open>Decimal(18, 2)\<close>, kept as the number of hundredths) and a naive \<open>datetime\<close>.
  Text is a list of code points below 256, one \<open>char\<close> each.
\<close>

record datetime =
  year :: nat
  month :: nat
  day :: nat
  hour :: nat
  minute :: nat
  second :: nat
  microsecond :: nat

datatype pyval =
    PyNone
  | PyInt int
  | PyStr string
  | PyDecimal int
  | PyDatetime datetime

subsection \<open>\<open>str\<close>, \<open>str.strip\<close>, \<open>str.lower\<close>, \<open>str.join\<close>\<close>

definition digit_char :: "nat \<Rightarrow> char" where
  "digit_char d = ''0123456789'' ! (d mod 10)"

fun digits :: "nat \<Rightarrow> string" where
  "digits n = (if n < 10 then [digit_char n] else digits (n div 10) @ [digit_char n])"

declare digits.simps [simp del]

definition str_int :: "int \<Rightarrow> string" where
  "str_int i = (if i < 0 then CHR ''-'' # digits (nat (- i)) else digits (nat i))"

definition zero_pad :: "nat \<Rightarrow> nat \<Rightarrow> string" where
  "zero_pad w n = replicate (w - length (digits n)) CHR ''0'' @ digits n"

text \<open>\<open>str(Decimal)\<close> for an exponent of -2: sign, integral digits, a dot, two digits.\<close>

definition str_decimal :: "int \<Rightarrow> string" where
  "str_decimal h =
     (if h < 0 then ''-'' else '''') @ digits (nat \<bar>h\<bar> div 100) @ ''.'' @ zero_pad 2 (nat \<bar>h\<bar> mod 100)"

text \<open>
  \<open>datetime.isoformat(sep)\<close> of a naive datetime: \<open>YYYY-MM-DD\<close>, the separator,
  \<open>HH:MM:SS\<close>, and the microseconds on six digits when they are not zero.
\<close>

definition isoformat_sep :: "char \<Rightarrow> datetime \<Rightarrow> string" where
  "isoformat_sep sep d =
     zero_pad 4 (year d) @ ''-'' @ zero_pad 2 (month d) @ ''-'' @ zero_pad 2 (day d) @ [sep]
     @ zero_pad 2 (hour d) @ '':'' @ zero_pad 2 (minute d) @ '':'' @ zero_pad 2 (second d)
     @ (if microsecond d = 0 then '''' else ''.'' @ zero_pad 6 (microsecond d))"

definition isoformat :: "datetime \<Rightarrow> string" where
  "isoformat d = isoformat_sep CHR ''T'' d"

text \<open>\<open>str(value)\<close>; \<open>str(datetime)\<close> is \<open>isoformat\<close> with a space.\<close>

fun py_str :: "pyval \<Rightarrow> string" where
  "py_str PyNone = ''None''"
| "py_str (PyInt i) = str_int i"
| "py_str (PyStr s) = s"
| "py_str (PyDecimal h) = str_decimal h"
| "py_str (PyDatetime d) = isoformat_sep CHR '' '' d"

text \<open>
  The code points below 256 that \<open>str.isspace\<close> accepts: tab to carriage return (9-13), the
  separators 28-31, the space, NEL (133) and the no-break space (160).
\<close>

definition isspace :: "char \<Rightarrow> bool" where
  "isspace c = (of_char c \<in> {9, 10, 11, 12, 13, 28, 29, 30, 31, 32, 133, 160 :: nat})"

definition strip :: "string \<Rightarrow> string" where
  "strip s = rev (dropWhile isspace (rev (dropWhile isspace s)))"

text \<open>\<open>str.lower\<close> below 256: A-Z, and the Latin-1 capitals 192-222 but for the sign 215.\<close>

definition lower_char :: "char \<Rightarrow> char" where
  "lower_char c =
     (let n = of_char c :: nat
      in if (65 \<le> n \<and> n \<le> 90) \<or> (192 \<le> n \<and> n \<le> 222 \<and> n \<noteq> 215) then char_of (n + 32) else c)"

definition lower :: "string \<Rightarrow> string" where
  "lower s = map lower_char s"

fun join :: "string \<Rightarrow> string list \<Rightarrow> string" where
  "join sep [] = []"
| "join sep [x] = x"
| "join sep (x # y # r) = x @ sep @ join sep (y # r)"

section \<open>SHA-256 (\<open>hashlib.sha256\<close>) and UTF-8\<close>

type_synonym u8 = "8 word"
type_synonym u32 = "32 word"

text \<open>\<open>str.encode("utf-8")\<close> of code points below 256: one byte below 128, two above.\<close>

definition utf8_char :: "char \<Rightarrow> u8 list" where
  "utf8_char c =
     (let n = of_char c :: nat
      in if n < 128 then [of_nat n] else [of_nat (192 + n div 64), of_nat (128 + n mod 64)])"

definition encode_utf8 :: "string \<Rightarrow> u8 list" where
  "encode_utf8 s = concat (map utf8_char s)"

text \<open>The 64 round constants of SHA-256, in decimal.\<close>

definition K256 :: "u32 list" where
  "K256 =
    [1116352408, 1899447441, 3049323471, 3921009573, 961987163, 1508970993,
     2453635748, 2870763221, 3624381080, 310598401, 607225278, 1426881987,
     1925078388, 2162078206, 2614888103, 3248222580, 3835390401, 4022224774,
     264347078, 604807628, 770255983, 1249150122, 1555081692, 1996064986,
     2554220882, 2821834349, 2952996808, 3210313671, 3336571891, 3584528711,
     113926993, 338241895, 666307205, 773529912, 1294757372, 1396182291,
     1695183700, 1986661051, 2177026350, 2456956037, 2730485921, 2820302411,
     3259730800, 3345764771, 3516065817, 3600352804, 4094571909, 275423344,
     430227734, 506948616, 659060556, 883997877, 958139571, 1322822218,
     1537002063, 1747873779, 1955562222, 2024104815, 2227730452, 2361852424,
     2428436474, 2756734187, 3204031479, 3329325298]"

definition rotr :: "nat \<Rightarrow> u32 \<Rightarrow> u32" where
  "rotr n x = drop_bit n x OR push_bit (32 - n) x"

definition Ch :: "u32 \<Rightarrow> u32 \<Rightarrow> u32 \<Rightarrow> u32" where
  "Ch x y z = (x AND y) XOR (NOT x AND z)"

definition Maj :: "u32 \<Rightarrow> u32 \<Rightarrow> u32 \<Rightarrow> u32" where
  "Maj x y z = (x AND y) XOR (x AND z) XOR (y AND z)"

definition Sigma0 :: "u32 \<Rightarrow> u32" where
  "Sigma0 x = rotr 2 x XOR rotr 13 x XOR rotr 22 x"

definition Sigma1 :: "u32 \<Rightarrow> u32" where
  "Sigma1 x = rotr 6 x XOR rotr 11 x XOR rotr 25 x"

definition sigma0 :: "u32 \<Rightarrow> u32" where
  "sigma0 x = rotr 7 x XOR rotr 18 x XOR drop_bit 3 x"

definition sigma1 :: "u32 \<Rightarrow> u32" where
  "sigma1 x = rotr 17 x XOR rotr 19 x XOR drop_bit 10 x"

text \<open>Padding: the byte 0x80, zero bytes up to 56 modulo 64, the bit length on 8 bytes.\<close>

definition be_bytes64 :: "64 word \<Rightarrow> u8 list" where
  "be_bytes64 v = map (\<lambda>i. ucast (drop_bit (8 * (7 - i)) v)) [0..<8]"

definition sha_pad :: "u8 list \<Rightarrow> u8 list" where
  "sha_pad m = m @ [0x80] @ replicate ((119 - length m mod 64) mod 64) 0
                 @ be_bytes64 (word_of_nat (8 * length m))"

fun be_words :: "u8 list \<Rightarrow> u32 list" where
  "be_words (a # b # c # d # r) =
     (push_bit 24 (ucast a) OR push_bit 16 (ucast b) OR push_bit 8 (ucast c) OR ucast d) # be_words r"
| "be_words _ = []"

fun schedule :: "nat \<Rightarrow> u32 list \<Rightarrow> u32 list" where
  "schedule 0 w = w"
| "schedule (Suc n) w =
     schedule n (w @ [sigma1 (w ! (length w - 2)) + w ! (length w - 7)
                      + sigma0 (w ! (length w - 15)) + w ! (length w - 16)])"

record hstate =
  ha :: u32
  hb :: u32
  hc :: u32
  hd0 :: u32
  he :: u32
  hf :: u32
  hg :: u32
  hh :: u32

definition sha_round :: "hstate \<Rightarrow> u32 \<times> u32 \<Rightarrow> hstate" where
  "sha_round s kw =
     (let t1 = hh s + Sigma1 (he s) + Ch (he s) (hf s) (hg s) + fst kw + snd kw;
          t2 = Sigma0 (ha s) + Maj (ha s) (hb s) (hc s)
      in \<lparr>ha = t1 + t2, hb = ha s, hc = hb s, hd0 = hc s,
          he = hd0 s + t1, hf = he s, hg = hf s, hh = hg s\<rparr>)"

definition compress :: "hstate \<Rightarrow> u32 list \<Rightarrow> hstate" where
  "compress s blk =
     (let r = foldl sha_round s (zip K256 (schedule 48 blk))
      in \<lparr>ha = ha s + ha r, hb = hb s + hb r, hc = hc s + hc r, hd0 = hd0 s + hd0 r,
          he = he s + he r, hf = hf s + hf r, hg = hg s + hg r, hh = hh s + hh r\<rparr>)"

definition H0 :: hstate where
  "H0 = \<lparr>ha = 1779033703, hb = 3144134277, hc = 1013904242, hd0 = 2773480762,
         he = 1359893119, hf = 2600822924, hg = 528734635, hh = 1541459225\<rparr>"

fun blocks :: "nat \<Rightarrow> u32 list \<Rightarrow> u32 list list" where
  "blocks 0 ws = []"
| "blocks (Suc n) ws = take 16 ws # blocks n (drop 16 ws)"

definition sha256 :: "u8 list \<Rightarrow> hstate" where
  "sha256 m = (let ws = be_words (sha_pad m) in foldl compress H0 (blocks (length ws div 16) ws))"

definition hex_digit :: "nat \<Rightarrow> char" where
  "hex_digit n = ''0123456789abcdef'' ! (n mod 16)"

definition hex32 :: "u32 \<Rightarrow> string" where
  "hex32 w = map (\<lambda>i. hex_digit (unat (drop_bit (4 * (7 - i)) w))) [0..<8]"

definition hexdigest :: "hstate \<Rightarrow> string" where
  "hexdigest s = hex32 (ha s) @ hex32 (hb s) @ hex32 (hc s) @ hex32 (hd0 s)
               @ hex32 (he s) @ hex32 (hf s) @ hex32 (hg s) @ hex32 (hh s)"

section \<open>The hasher: \<open>normalize_value\<close> and \<open>sha256_from_values\<close>\<close>

fun normalize_value :: "pyval \<Rightarrow> string" where
  "normalize_value PyNone = ''''"
| "normalize_value (PyDatetime d) = isoformat d"
| "normalize_value v = strip (py_str v)"

definition sha256_from_values :: "pyval list \<Rightarrow> string" where
  "sha256_from_values vals =
     (let canonical = join ''|'' (map normalize_value vals)
      in hexdigest (sha256 (encode_utf8 canonical)))"

section \<open>Frames, rows and the column lists\<close>

text \<open>
  A frame is its column names, in order, and its rows. A row gives the value of every
  column; it is read only at the columns of its frame. \<open>to_dicts\<close> gives one dictionary for
  each row, with the columns of the frame as keys.
\<close>

type_synonym row = "string \<Rightarrow> pyval"

type_synonym dict = "string \<rightharpoonup> pyval"

record dataframe =
  columns :: "string list"
  rows :: "row list"

definition height :: "dataframe \<Rightarrow> int" where
  "height df = int (length (rows df))"

definition to_dicts :: "dataframe \<Rightarrow> dict list" where
  "to_dicts df = map (\<lambda>r c. if c \<in> set (columns df) then Some (r c) else None) (rows df)"

datatype error =
    ValueError string
  | ColumnNotFoundError string
  | KeyError string

definition CRITICAL_COLUMNS :: "string list" where
  "CRITICAL_COLUMNS =
     [''CodFondo'', ''Identificacion'', ''CodDireccion'', ''Valor'', ''Unidades'',
      ''ObjetivoInversion'', ''Asesor'', ''Oficina'', ''Bloqueo'', ''DiasPermanencia'']"

definition DATE_COLUMNS :: "string list" where
  "DATE_COLUMNS =
     [''FechaConstitucion'', ''FechaVencimiento'', ''FechaVtoTeorica'', ''FechaUltimaCancelacion'']"

definition SOURCE_COLUMNS :: "string list" where
  "SOURCE_COLUMNS =
     [''CodFondo'', ''CodClase'', ''NumeroCuentaInversion'', ''TipoIdentificacion'',
      ''Identificacion'', ''CodDireccion'', ''Valor'', ''Unidades'', ''FechaConstitucion'',
      ''FechaVencimiento'', ''ObjetivoInversion'', ''Asesor'', ''Referido'', ''CanalApertura'',
      ''Oficina'', ''OficinaApertura'', ''OficinaActual'', ''Bloqueo'', ''IdCausalBloqueo'',
      ''DiasPermanencia'', ''FechaVtoTeorica'', ''FechaUltimaCancelacion'']"

definition COPY_COLUMNS :: "string list" where
  "COPY_COLUMNS =
     [''process_id'', ''source_hash'', ''source_system'', ''transaction_id'', ''payload_hash'',
      ''cod_fondo'', ''cod_clase'', ''numero_cuenta_inversion'', ''tipo_identificacion'',
      ''identificacion'', ''cod_direccion'', ''valor'', ''unidades'', ''fecha_constitucion'',
      ''fecha_vencimiento'', ''objetivo_inversion'', ''asesor'', ''referido'', ''canal_apertura'',
      ''oficina'', ''oficina_apertura'', ''oficina_actual'', ''bloqueo'', ''id_causal_bloqueo'',
      ''dias_permanencia'', ''fecha_vto_teorica'', ''fecha_ultima_cancelacion'']"

record metrics =
  rows_read :: int
  rows_loaded :: int
  rows_rejected :: int

section \<open>The polars operations of \<open>transform_chunk\<close>\<close>

text \<open>
  The element-wise coercions of polars are parameters of the model: the non-strict casts to
  \<open>Int32\<close>, \<open>Int64\<close> and \<open>Decimal(18, 2)\<close>, which give a value or null and never raise, and
  \<open>cast(Utf8).str.strptime(Datetime, strict=False, exact=False)\<close>, which infers its format
  from the column it is applied to and so takes the whole column besides the value.
\<close>

record coercions =
  cast_int32 :: "pyval \<Rightarrow> pyval"
  cast_int64 :: "pyval \<Rightarrow> pyval"
  cast_decimal :: "pyval \<Rightarrow> pyval"
  strptime :: "pyval list \<Rightarrow> pyval \<Rightarrow> pyval"

text \<open>\<open>df.select(cols)\<close>: the named columns in the given order, or the first one missing.\<close>

definition select :: "string list \<Rightarrow> dataframe \<Rightarrow> error + dataframe" where
  "select cols df =
     (case filter (\<lambda>c. c \<notin> set (columns df)) cols of
        [] \<Rightarrow> Inr (df\<lparr>columns := cols\<rparr>)
      | c # _ \<Rightarrow> Inl (ColumnNotFoundError c))"

definition is_null :: "row \<Rightarrow> string \<Rightarrow> bool" where
  "is_null r c = (r c = PyNone)"

text \<open>\<open>df.drop_nulls(subset)\<close>: the rows with no null in the given columns.\<close>

definition no_nulls :: "string list \<Rightarrow> row \<Rightarrow> bool" where
  "no_nulls cols r = list_all (\<lambda>c. \<not> is_null r c) cols"

definition drop_nulls :: "string list \<Rightarrow> dataframe \<Rightarrow> dataframe" where
  "drop_nulls cols df = df\<lparr>rows := filter (no_nulls cols) (rows df)\<rparr>"

text \<open>
  \<open>df.with_columns([pl.col(c).cast(t, strict=False), ...])\<close>: every expression reads the
  frame it is applied to and replaces the column of its name.
\<close>

definition apply_exprs :: "(string \<times> (pyval \<Rightarrow> pyval)) list \<Rightarrow> row \<Rightarrow> row" where
  "apply_exprs exprs r = (\<lambda>c. case map_of exprs c of None \<Rightarrow> r c | Some f \<Rightarrow> f (r c))"

definition with_columns :: "(string \<times> (pyval \<Rightarrow> pyval)) list \<Rightarrow> dataframe \<Rightarrow> dataframe" where
  "with_columns exprs df = df\<lparr>rows := map (apply_exprs exprs) (rows df)\<rparr>"

definition casts :: "coercions \<Rightarrow> (string \<times> (pyval \<Rightarrow> pyval)) list" where
  "casts cs =
     [(''CodFondo'', cast_int32 cs),
      (''Identificacion'', cast_int32 cs),
      (''CodDireccion'', cast_int32 cs),
      (''Valor'', cast_decimal cs),
      (''Unidades'', cast_int64 cs),
      (''ObjetivoInversion'', cast_int64 cs),
      (''Asesor'', cast_int32 cs),
      (''Oficina'', cast_int32 cs),
      (''Bloqueo'', cast_int32 cs),
      (''DiasPermanencia'', cast_int64 cs),
      (''OficinaApertura'', cast_int32 cs),
      (''OficinaActual'', cast_int32 cs),
      (''IdCausalBloqueo'', cast_int32 cs)]"

text \<open>
  One turn of the loop over \<open>DATE_COLUMNS\<close>:
  \<open>with_columns(when(col.is_null()).then(None).otherwise(col.cast(Utf8).str.strptime(...)))\<close>.
\<close>

definition column :: "string \<Rightarrow> dataframe \<Rightarrow> pyval list" where
  "column c df = map (\<lambda>r. r c) (rows df)"

definition parse_date :: "coercions \<Rightarrow> pyval list \<Rightarrow> string \<Rightarrow> row \<Rightarrow> row" where
  "parse_date cs col date_col r =
     r(date_col := (if is_null r date_col then PyNone else strptime cs col (r date_col)))"

definition parse_date_column :: "coercions \<Rightarrow> dataframe \<Rightarrow> string \<Rightarrow> dataframe" where
  "parse_date_column cs df date_col =
     df\<lparr>rows := map (parse_date cs (column date_col df) date_col) (rows df)\<rparr>"

definition transform_chunk :: "coercions \<Rightarrow> dataframe \<Rightarrow> error + dataframe" where
  "transform_chunk cs df =
     (case select SOURCE_COLUMNS df of
        Inl e \<Rightarrow> Inl e
      | Inr selected \<Rightarrow>
          (let transformed =
                 drop_nulls CRITICAL_COLUMNS
                   (with_columns (casts cs) (drop_nulls CRITICAL_COLUMNS selected))
           in Inr (foldl (parse_date_column cs) transformed DATE_COLUMNS)))"

section \<open>\<open>build_copy_rows\<close>\<close>

text \<open>\<open>record[c]\<close> for every \<open>c\<close> of a list; a missing key raises \<open>KeyError\<close>.\<close>

fun items :: "dict \<Rightarrow> string list \<Rightarrow> error + pyval list" where
  "items r [] = Inr []"
| "items r (c # cols) =
     (case r c of
        None \<Rightarrow> Inl (KeyError c)
      | Some v \<Rightarrow> (case items r cols of Inl e \<Rightarrow> Inl e | Inr vs \<Rightarrow> Inr (v # vs)))"

text \<open>The columns read for \<open>business_key\<close>, and those read for the tail of \<open>row\<close>.\<close>

definition BUSINESS_KEY :: "string list" where
  "BUSINESS_KEY =
     [''CodFondo'', ''NumeroCuentaInversion'', ''Identificacion'', ''CodDireccion'',
      ''FechaConstitucion'']"

definition ROW_FIELDS :: "string list" where
  "ROW_FIELDS =
     [''CodFondo'', ''CodClase'', ''NumeroCuentaInversion'', ''TipoIdentificacion'',
      ''Identificacion'', ''CodDireccion'', ''Valor'', ''Unidades'', ''FechaConstitucion'',
      ''FechaVencimiento'', ''ObjetivoInversion'', ''Asesor'', ''Referido'', ''CanalApertura'',
      ''Oficina'', ''OficinaApertura'', ''OficinaActual'', ''Bloqueo'', ''IdCausalBloqueo'',
      ''DiasPermanencia'', ''FechaVtoTeorica'', ''FechaUltimaCancelacion'']"

definition build_copy_row :: "string \<Rightarrow> string \<Rightarrow> string \<Rightarrow> dict \<Rightarrow> error + pyval list" where
  "build_copy_row process_id source_hash source_system record =
     (case items record BUSINESS_KEY of
        Inl e \<Rightarrow> Inl e
      | Inr key \<Rightarrow>
     (case items record SOURCE_COLUMNS of
        Inl e \<Rightarrow> Inl e
      | Inr payload \<Rightarrow>
     (case items record ROW_FIELDS of
        Inl e \<Rightarrow> Inl e
      | Inr vals \<Rightarrow>
          (let business_key = key @ [PyStr source_system];
               payload_values = payload @ [PyStr source_system]
           in Inr ([PyStr process_id, PyStr source_hash, PyStr source_system,
                    PyStr (sha256_from_values business_key),
                    PyStr (sha256_from_values payload_values)] @ vals)))))"

fun copy_rows :: "string \<Rightarrow> string \<Rightarrow> string \<Rightarrow> dict list \<Rightarrow> error + pyval list list" where
  "copy_rows process_id source_hash source_system [] = Inr []"
| "copy_rows process_id source_hash source_system (record # records) =
     (case build_copy_row process_id source_hash source_system record of
        Inl e \<Rightarrow> Inl e
      | Inr row \<Rightarrow>
          (case copy_rows process_id source_hash source_system records of
             Inl e \<Rightarrow> Inl e
           | Inr rs \<Rightarrow> Inr (row # rs)))"

definition build_copy_rows ::
  "dataframe \<Rightarrow> string \<Rightarrow> string \<Rightarrow> string \<Rightarrow> error + pyval list list" where
  "build_copy_rows df process_id source_hash source_system =
     copy_rows process_id source_hash source_system (to_dicts df)"

section \<open>\<open>copy_to_staging\<close>\<close>

text \<open>
  What the run does to the outside is a list of events, oldest first: the connection opened,
  a slice collected (offset and length), a \<open>COPY\<close> statement with the data written to it, a
  commit, a rollback, a line printed, the connection closed.
\<close>

datatype event =
    Connect string
  | Collect nat int
  | Copy string string
  | Commit
  | Rollback
  | Print string
  | Close

text \<open>
  \<open>csv.writer\<close> with the comma, the double quote and \<open>QUOTE_MINIMAL\<close>: \<open>None\<close> is written as
  the empty field, anything else as its \<open>str\<close>; a field holding the delimiter, the quote or a
  line break is quoted, its quotes doubled; a row that is one empty field is written as two
  quotes; every row ends with CR LF.
\<close>

definition csv_special :: "char \<Rightarrow> bool" where
  "csv_special c = (c = CHR '','' \<or> c = CHR 0x22 \<or> c = CHR 0x0D \<or> c = CHR 0x0A)"

definition csv_field :: "pyval \<Rightarrow> string" where
  "csv_field v =
     (let s = (case v of PyNone \<Rightarrow> '''' | _ \<Rightarrow> py_str v)
      in if list_ex csv_special s
         then [CHR 0x22] @ concat (map (\<lambda>c. if c = CHR 0x22 then [c, c] else [c]) s) @ [CHR 0x22]
         else s)"

definition csv_row :: "pyval list \<Rightarrow> string" where
  "csv_row vals =
     (let fs = map csv_field vals
      in (if fs = [''''] then [CHR 0x22, CHR 0x22] else join '','' fs) @ [CHR 0x0D, CHR 0x0A])"

definition writerows :: "pyval list list \<Rightarrow> string" where
  "writerows rs = concat (map csv_row rs)"

definition copy_sql :: string where
  "copy_sql =
     [CHR 0x0A] @ ''        COPY staging_transactions ('' @ join '', '' COPY_COLUMNS @ '')''
     @ [CHR 0x0A] @ ''        FROM STDIN WITH (FORMAT CSV)'' @ [CHR 0x0A] @ ''    ''"

definition copy_to_staging :: "event list \<Rightarrow> pyval list list \<Rightarrow> event list" where
  "copy_to_staging conn rs = (if rs = [] then conn else conn @ [Copy copy_sql (writerows rs)])"

section \<open>\<open>scan_input_file\<close>\<close>

text \<open>
  A \<open>Path\<close> is its components. \<open>Path.name\<close> is the last one; \<open>Path.suffix\<close> is the name from
  its last dot on, when that dot is neither the first nor the last character of the name.
\<close>

type_synonym path = "string list"

definition path_name :: "path \<Rightarrow> string" where
  "path_name p = (if p = [] then '''' else last p)"

definition rfind_dot :: "string \<Rightarrow> nat option" where
  "rfind_dot s =
     (let k = length (takeWhile (\<lambda>c. c \<noteq> CHR ''.'') (rev s))
      in if k = length s then None else Some (length s - 1 - k))"

definition path_suffix :: "path \<Rightarrow> string" where
  "path_suffix p =
     (let name = path_name p
      in case rfind_dot name of
           None \<Rightarrow> ''''
         | Some i \<Rightarrow> if 0 < i \<and> i + 1 < length name then drop i name else '''')"

text \<open>The frame that scanning the file gives is the argument \<open>file\<close>.\<close>

definition scan_input_file :: "dataframe \<Rightarrow> path \<Rightarrow> error + dataframe" where
  "scan_input_file file input_path =
     (let extension = lower (path_suffix input_path)
      in if extension = ''.parquet'' then Inr file
         else if extension = ''.csv'' then Inr file
         else Inl (ValueError
                (''Formato no soportado: ''
                 @ (if path_suffix input_path = '''' then ''[sin extensi'' @ [CHR 0xF3] @ ''n]''
                    else path_suffix input_path)
                 @ ''. Use un archivo .parquet o .csv'')))"

section \<open>\<open>run_etl\<close>\<close>

text \<open>
  \<open>lazy_frame.slice(offset, length).collect()\<close>. A negative length raises \<open>ValueError\<close>; the
  offset of \<open>run_etl\<close> starts at 0 and only grows, so it is a natural number here.
\<close>

definition slice_collect :: "dataframe \<Rightarrow> nat \<Rightarrow> int \<Rightarrow> error + dataframe" where
  "slice_collect lazy_frame offset len =
     (if len < 0
      then Inl (ValueError (''negative slice lengths ('' @ str_int len
                            @ '') are invalid for LazyFrame objects''))
      else Inr (lazy_frame\<lparr>rows := take (nat len) (drop offset (rows lazy_frame))\<rparr>))"

definition progress_line :: "metrics \<Rightarrow> string" where
  "progress_line m =
     ''PROGRESS rows_read='' @ str_int (rows_read m)
     @ '' rows_loaded='' @ str_int (rows_loaded m)
     @ '' rows_rejected='' @ str_int (rows_rejected m)"

text \<open>
  How \<open>run_etl\<close> ends: it returns its metrics, or an exception leaves it; the metrics kept
  with the exception are those of the local \<open>metrics\<close> object at that moment.
\<close>

datatype outcome =
    Returned metrics
  | Raised error metrics

text \<open>The \<open>while True\<close> loop, from the current offset, metrics and events.\<close>

function etl_loop ::
  "coercions \<Rightarrow> dataframe \<Rightarrow> string \<Rightarrow> string \<Rightarrow> string \<Rightarrow> int \<Rightarrow> nat \<Rightarrow> metrics \<Rightarrow> event list
   \<Rightarrow> outcome \<times> event list" where
  "etl_loop cs lazy_frame process_id source_hash source_system chunk_size offset m conn =
     (case slice_collect lazy_frame offset chunk_size of
        Inl e \<Rightarrow> (Raised e m, conn)
      | Inr chunk \<Rightarrow>
          (let conn1 = conn @ [Collect offset chunk_size]
           in if height chunk = 0 then (Returned m, conn1)
              else
                (let m1 = m\<lparr>rows_read := rows_read m + height chunk\<rparr>
                 in case transform_chunk cs chunk of
                      Inl e \<Rightarrow> (Raised e m1, conn1)
                    | Inr transformed \<Rightarrow>
                        (case build_copy_rows transformed process_id source_hash source_system of
                           Inl e \<Rightarrow> (Raised e m1, conn1)
                         | Inr rs \<Rightarrow>
                             (let conn2 = copy_to_staging conn1 rs;
                                  m2 = m1\<lparr>rows_loaded := rows_loaded m1 + int (length rs)\<rparr>;
                                  m3 = m2\<lparr>rows_rejected :=
                                            rows_rejected m2 + (height chunk - int (length rs))\<rparr>;
                                  conn3 = conn2 @ [Commit];
                                  conn4 = conn3 @ [Print (progress_line m3)]
                              in etl_loop cs lazy_frame process_id source_hash source_system
                                   chunk_size (offset + nat chunk_size) m3 conn4)))))"
  by pat_completeness auto
termination
proof (relation "measure (\<lambda>(cs, lf, p, h, s, k, offset, m, conn). length (rows lf) - offset)")
  show "wf (measure (\<lambda>(cs, lf, p, h, s, k, offset, m, conn). length (rows lf) - offset))"
    by simp
next
  fix cs lazy_frame process_id source_hash source_system chunk_size offset and chunk :: dataframe
    and m m3 :: metrics and conn conn4 :: "event list"
  assume a: "slice_collect lazy_frame offset chunk_size = Inr chunk" and b: "height chunk \<noteq> 0"
  from a have c: "rows chunk = take (nat chunk_size) (drop offset (rows lazy_frame))"
    by (auto simp: slice_collect_def split: if_splits)
  with b have "0 < nat chunk_size" and "offset < length (rows lazy_frame)"
    by (auto simp: height_def intro: ccontr)
  then show "((cs, lazy_frame, process_id, source_hash, source_system, chunk_size,
         offset + nat chunk_size, m3, conn4),
        cs, lazy_frame, process_id, source_hash, source_system, chunk_size, offset, m, conn)
       \<in> measure (\<lambda>(cs, lf, p, h, s, k, offset, m, conn). length (rows lf) - offset)"
    by simp
qed

declare etl_loop.simps [simp del]

text \<open>
  \<open>run_etl\<close>. The connection is a context manager: leaving its block commits and closes, or
  rolls back and closes when an exception leaves it.
\<close>

definition run_etl ::
  "coercions \<Rightarrow> dataframe \<Rightarrow> path \<Rightarrow> string \<Rightarrow> string \<Rightarrow> string \<Rightarrow> string \<Rightarrow> int
   \<Rightarrow> outcome \<times> event list" where
  "run_etl cs file input_path process_id source_hash source_system connection_string chunk_size =
     (let m0 = \<lparr>rows_read = 0, rows_loaded = 0, rows_rejected = 0\<rparr>
      in case scan_input_file file input_path of
           Inl e \<Rightarrow> (Raised e m0, [])
         | Inr lazy_frame \<Rightarrow>
             (case etl_loop cs lazy_frame process_id source_hash source_system chunk_size 0 m0
                     [Connect connection_string] of
                (Returned m, conn) \<Rightarrow> (Returned m, conn @ [Commit, Close])
              | (Raised e m, conn) \<Rightarrow> (Raised e m, conn @ [Rollback, Close])))"

section \<open>An instance of the coercions, and some records\<close>

text \<open>
  The instance keeps an integer that fits the width and gives null for anything else; it
  turns an integer or a decimal of at most 18 digits into a decimal; it keeps a datetime and
  gives null for any other date value.
\<close>

definition example_cast_int :: "nat \<Rightarrow> pyval \<Rightarrow> pyval" where
  "example_cast_int bits v =
     (case v of
        PyInt i \<Rightarrow> if - (2 ^ (bits - 1)) \<le> i \<and> i < 2 ^ (bits - 1) then PyInt i else PyNone
      | _ \<Rightarrow> PyNone)"

definition example_cast_decimal :: "pyval \<Rightarrow> pyval" where
  "example_cast_decimal v =
     (case v of
        PyInt i \<Rightarrow> if \<bar>i\<bar> < 10 ^ 16 then PyDecimal (100 * i) else PyNone
      | PyDecimal h \<Rightarrow> if \<bar>h\<bar> < 10 ^ 18 then PyDecimal h else PyNone
      | _ \<Rightarrow> PyNone)"

definition example_strptime :: "pyval list \<Rightarrow> pyval \<Rightarrow> pyval" where
  "example_strptime col v = (case v of PyDatetime d \<Rightarrow> PyDatetime d | _ \<Rightarrow> PyNone)"

definition example_coercions :: coercions where
  "example_coercions =
     \<lparr>cast_int32 = example_cast_int 32, cast_int64 = example_cast_int 64,
      cast_decimal = example_cast_decimal, strptime = example_strptime\<rparr>"

definition row_of :: "(string \<times> pyval) list \<Rightarrow> row" where
  "row_of kvs = (\<lambda>c. case map_of kvs c of None \<Rightarrow> PyNone | Some v \<Rightarrow> v)"

definition example_date :: "nat \<Rightarrow> nat \<Rightarrow> nat \<Rightarrow> pyval" where
  "example_date y mo d =
     PyDatetime \<lparr>year = y, month = mo, day = d, hour = 0, minute = 0, second = 0, microsecond = 0\<rparr>"

definition example_record :: "(string \<times> pyval) list" where
  "example_record =
     [(''CodFondo'', PyInt 101), (''CodClase'', PyStr ''A''),
      (''NumeroCuentaInversion'', PyStr ''ACCT-10000001''), (''TipoIdentificacion'', PyStr ''CC''),
      (''Identificacion'', PyInt 1000001), (''CodDireccion'', PyInt 7),
      (''Valor'', PyDecimal 150050), (''Unidades'', PyInt 12),
      (''FechaConstitucion'', example_date 2020 1 15),
      (''FechaVencimiento'', example_date 2030 1 15),
      (''ObjetivoInversion'', PyInt 3), (''Asesor'', PyInt 1234), (''Referido'', PyStr ''WEB''),
      (''CanalApertura'', PyNone), (''Oficina'', PyInt 20), (''OficinaApertura'', PyNone),
      (''OficinaActual'', PyInt 21), (''Bloqueo'', PyInt 0), (''IdCausalBloqueo'', PyNone),
      (''DiasPermanencia'', PyInt 365), (''FechaVtoTeorica'', example_date 2031 6 30),
      (''FechaUltimaCancelacion'', PyNone)]"

text \<open>
  Three records: the first complete but for optional fields, the second with a null holder
  identifier, the third with another account and holder.
\<close>

definition example_frame :: dataframe where
  "example_frame =
     \<lparr>columns = SOURCE_COLUMNS,
      rows = [row_of example_record,
              row_of ((''Identificacion'', PyNone) # example_record),
              row_of ((''Identificacion'', PyInt 1000003)
                      # (''NumeroCuentaInversion'', PyStr ''ACCT-10000003'') # example_record)]\<rparr>"

section \<open>What the transformer keeps\<close>

text \<open>
  A raw record is loadable when no mandatory field is null, before the casts and after them.
  A date field of a transformed record is null when it was null, and otherwise what
  \<open>strptime\<close> gives for it on some column; the other fields are left as they were.
\<close>

definition loadable :: "coercions \<Rightarrow> row \<Rightarrow> bool" where
  "loadable cs r =
     (no_nulls CRITICAL_COLUMNS r \<and> no_nulls CRITICAL_COLUMNS (apply_exprs (casts cs) r))"

definition date_parsed :: "coercions \<Rightarrow> row \<Rightarrow> row \<Rightarrow> string \<Rightarrow> bool" where
  "date_parsed cs r r' c =
     (if is_null r c then is_null r' c else (\<exists>col. r' c = strptime cs col (r c)))"

definition dates_parsed :: "coercions \<Rightarrow> row \<Rightarrow> row \<Rightarrow> bool" where
  "dates_parsed cs r r' =
     (\<forall>c. if c \<in> set DATE_COLUMNS then date_parsed cs r r' c else r' c = r c)"

lemma select_ok:
  "set cols \<subseteq> set (columns df) \<Longrightarrow> select cols df = Inr (df\<lparr>columns := cols\<rparr>)"
proof -
  assume "set cols \<subseteq> set (columns df)"
  then have "filter (\<lambda>c. c \<notin> set (columns df)) cols = []"
    by (auto simp: filter_empty_conv)
  then show ?thesis by (simp add: select_def)
qed

lemma select_missing:
  assumes "\<not> set cols \<subseteq> set (columns df)"
  shows "\<exists>c. select cols df = Inl (ColumnNotFoundError c) \<and> c \<in> set cols \<and> c \<notin> set (columns df)"
proof -
  from assms have "filter (\<lambda>c. c \<notin> set (columns df)) cols \<noteq> []"
    by (auto simp: filter_empty_conv)
  then obtain c rest where f: "filter (\<lambda>c. c \<notin> set (columns df)) cols = c # rest"
    by (cases "filter (\<lambda>c. c \<notin> set (columns df)) cols") auto
  then have "c \<in> set (filter (\<lambda>c. c \<notin> set (columns df)) cols)" by simp
  then have "c \<in> set cols \<and> c \<notin> set (columns df)" by simp
  moreover from f have "select cols df = Inl (ColumnNotFoundError c)" by (simp add: select_def)
  ultimately show ?thesis by blast
qed

lemma parse_date_column_rows:
  "rows (parse_date_column cs df c) = map (parse_date cs (column c df) c) (rows df)"
  by (simp add: parse_date_column_def)

lemma parse_date_column_columns: "columns (parse_date_column cs df c) = columns df"
  by (simp add: parse_date_column_def)

lemma foldl_parse_columns: "columns (foldl (parse_date_column cs) df cols) = columns df"
  by (induction cols arbitrary: df) (simp_all add: parse_date_column_columns)

lemma foldl_parse_dates:
  "distinct cols \<Longrightarrow>
   list_all2 (\<lambda>r r'. \<forall>c. if c \<in> set cols then date_parsed cs r r' c else r' c = r c)
     (rows df) (rows (foldl (parse_date_column cs) df cols))"
proof (induction cols arbitrary: df)
  case Nil
  show ?case by (simp add: list_all2_same)
next
  case (Cons a cols)
  let ?d = "parse_date_column cs df a"
  have step: "list_all2 (\<lambda>r r'. date_parsed cs r r' a \<and> (\<forall>c. c \<noteq> a \<longrightarrow> r' c = r c)) (rows df) (rows ?d)"
    by (auto simp: parse_date_column_rows list_all2_map2 list_all2_same parse_date_def
        date_parsed_def is_null_def)
  from Cons have ih: "list_all2 (\<lambda>r r'. \<forall>c. if c \<in> set cols then date_parsed cs r r' c else r' c = r c)
     (rows ?d) (rows (foldl (parse_date_column cs) ?d cols))"
    by simp
  from Cons.prems have na: "a \<notin> set cols" by simp
  have "list_all2 (\<lambda>r r'. \<forall>c. if c \<in> set (a # cols) then date_parsed cs r r' c else r' c = r c)
     (rows df) (rows (foldl (parse_date_column cs) ?d cols))"
  proof (rule list_all2_trans [OF _ step ih])
    fix r r' r'' :: row
    assume 1: "date_parsed cs r r' a \<and> (\<forall>c. c \<noteq> a \<longrightarrow> r' c = r c)"
      and 2: "\<forall>c. if c \<in> set cols then date_parsed cs r' r'' c else r'' c = r' c"
    show "\<forall>c. if c \<in> set (a # cols) then date_parsed cs r r'' c else r'' c = r c"
    proof
      fix c
      show "if c \<in> set (a # cols) then date_parsed cs r r'' c else r'' c = r c"
      proof (cases "c = a")
        case True
        from 2 na have "r'' a = r' a" by (auto split: if_splits)
        moreover from 1 have "date_parsed cs r r' a" by simp
        ultimately have "date_parsed cs r r'' a" by (auto simp: date_parsed_def is_null_def)
        with True show ?thesis by simp
      next
        case False
        with 1 have e: "r' c = r c" by simp
        from 2 have "if c \<in> set cols then date_parsed cs r' r'' c else r'' c = r' c" ..
        with e False show ?thesis
          by (simp add: date_parsed_def is_null_def split: if_splits)
      qed
    qed
  qed
  then show ?case by simp
qed

lemma distinct_DATE_COLUMNS: "distinct DATE_COLUMNS"
  by (simp add: DATE_COLUMNS_def)

lemma transform_chunk_rows:
  assumes "set SOURCE_COLUMNS \<subseteq> set (columns df)"
  shows "\<exists>out. transform_chunk cs df = Inr out \<and> columns out = SOURCE_COLUMNS
           \<and> list_all2 (dates_parsed cs)
                (map (apply_exprs (casts cs)) (filter (loadable cs) (rows df))) (rows out)"
proof -
  let ?t = "drop_nulls CRITICAL_COLUMNS
              (with_columns (casts cs) (drop_nulls CRITICAL_COLUMNS (df\<lparr>columns := SOURCE_COLUMNS\<rparr>)))"
  let ?out = "foldl (parse_date_column cs) ?t DATE_COLUMNS"
  have t: "transform_chunk cs df = Inr ?out"
    by (simp add: transform_chunk_def select_ok [OF assms])
  have rt: "rows ?t = map (apply_exprs (casts cs)) (filter (loadable cs) (rows df))"
    by (simp add: drop_nulls_def with_columns_def filter_map loadable_def [abs_def] comp_def conj_commute)
  have ct: "columns ?out = SOURCE_COLUMNS"
    by (simp add: foldl_parse_columns drop_nulls_def with_columns_def)
  from foldl_parse_dates [OF distinct_DATE_COLUMNS, of cs ?t]
  have "list_all2 (dates_parsed cs) (rows ?t) (rows ?out)"
    by (simp add: dates_parsed_def [abs_def])
  with rt t ct show ?thesis by simp
qed

lemma transform_chunk_missing:
  assumes "\<not> set SOURCE_COLUMNS \<subseteq> set (columns df)"
  shows "\<exists>c. transform_chunk cs df = Inl (ColumnNotFoundError c)"
  using select_missing [OF assms] by (auto simp: transform_chunk_def)

section \<open>The run, batch by batch\<close>

text \<open>
  The staged row of a transformed record; the transformed records of a batch; the counters
  after a batch; the batches of a source for a batch size; the running totals after each
  batch; and the events of the loop over a list of batches.
\<close>

definition staging_row :: "string \<Rightarrow> string \<Rightarrow> string \<Rightarrow> row \<Rightarrow> pyval list" where
  "staging_row process_id source_hash source_system r =
     [PyStr process_id, PyStr source_hash, PyStr source_system,
      PyStr (sha256_from_values (map r BUSINESS_KEY @ [PyStr source_system])),
      PyStr (sha256_from_values (map r SOURCE_COLUMNS @ [PyStr source_system]))]
     @ map r SOURCE_COLUMNS"

definition transformed :: "coercions \<Rightarrow> row list \<Rightarrow> row list" where
  "transformed cs b =
     (case transform_chunk cs \<lparr>columns = SOURCE_COLUMNS, rows = b\<rparr> of
        Inr out \<Rightarrow> rows out
      | Inl e \<Rightarrow> [])"

definition count_batch :: "coercions \<Rightarrow> metrics \<Rightarrow> row list \<Rightarrow> metrics" where
  "count_batch cs m b =
     \<lparr>rows_read = rows_read m + int (length b),
      rows_loaded = rows_loaded m + int (length (filter (loadable cs) b)),
      rows_rejected = rows_rejected m + int (length (filter (\<lambda>r. \<not> loadable cs r) b))\<rparr>"

function batches :: "nat \<Rightarrow> 'a list \<Rightarrow> 'a list list" where
  "batches k xs = (if k = 0 \<or> xs = [] then [] else take k xs # batches k (drop k xs))"
  by pat_completeness auto
termination
  by (relation "measure (\<lambda>(k, xs). length xs)") auto

declare batches.simps [simp del]

fun totals :: "coercions \<Rightarrow> metrics \<Rightarrow> row list list \<Rightarrow> metrics list" where
  "totals cs m [] = []"
| "totals cs m (b # bs) = count_batch cs m b # totals cs (count_batch cs m b) bs"

fun batch_events ::
  "coercions \<Rightarrow> string \<Rightarrow> string \<Rightarrow> string \<Rightarrow> int \<Rightarrow> nat \<Rightarrow> metrics \<Rightarrow> row list list \<Rightarrow> event list" where
  "batch_events cs p h s k off m [] = [Collect off k]"
| "batch_events cs p h s k off m (b # bs) =
     Collect off k
     # copy_to_staging [] (map (staging_row p h s) (transformed cs b))
     @ [Commit, Print (progress_line (count_batch cs m b))]
     @ batch_events cs p h s k (off + nat k) (count_batch cs m b) bs"

lemma items_dict:
  "set cols \<subseteq> S \<Longrightarrow> items (\<lambda>c. if c \<in> S then Some (r c) else None) cols = Inr (map r cols)"
  by (induction cols) auto

lemma BUSINESS_KEY_subset: "set BUSINESS_KEY \<subseteq> set SOURCE_COLUMNS"
  by (simp add: BUSINESS_KEY_def SOURCE_COLUMNS_def)

lemma ROW_FIELDS_eq: "ROW_FIELDS = SOURCE_COLUMNS"
  by (simp add: ROW_FIELDS_def SOURCE_COLUMNS_def)

lemma build_copy_row_dict:
  assumes "set SOURCE_COLUMNS \<subseteq> S"
  shows "build_copy_row p h s (\<lambda>c. if c \<in> S then Some (r c) else None) = Inr (staging_row p h s r)"
proof -
  from assms BUSINESS_KEY_subset have "set BUSINESS_KEY \<subseteq> S" by blast
  with assms show ?thesis
    by (simp add: build_copy_row_def items_dict ROW_FIELDS_eq staging_row_def)
qed

lemma copy_rows_dicts:
  assumes "set SOURCE_COLUMNS \<subseteq> S"
  shows "copy_rows p h s (map (\<lambda>r c. if c \<in> S then Some (r c) else None) rs)
           = Inr (map (staging_row p h s) rs)"
  by (induction rs) (simp_all add: build_copy_row_dict [OF assms])

lemma build_copy_rows_ok:
  "columns df = SOURCE_COLUMNS \<Longrightarrow>
   build_copy_rows df p h s = Inr (map (staging_row p h s) (rows df))"
  by (simp add: build_copy_rows_def to_dicts_def copy_rows_dicts)

lemma transform_chunk_transformed:
  assumes "set SOURCE_COLUMNS \<subseteq> set (columns df)"
  shows "transform_chunk cs df = Inr \<lparr>columns = SOURCE_COLUMNS, rows = transformed cs (rows df)\<rparr>"
proof -
  have "df\<lparr>columns := SOURCE_COLUMNS\<rparr> = \<lparr>columns = SOURCE_COLUMNS, rows = rows df\<rparr>"
    by simp
  then have e: "select SOURCE_COLUMNS df = select SOURCE_COLUMNS \<lparr>columns = SOURCE_COLUMNS, rows = rows df\<rparr>"
    by (simp add: select_ok [OF assms] select_ok)
  obtain out where o: "transform_chunk cs df = Inr out" and c: "columns out = SOURCE_COLUMNS"
    using transform_chunk_rows [OF assms] by blast
  from e o have "transform_chunk cs \<lparr>columns = SOURCE_COLUMNS, rows = rows df\<rparr> = Inr out"
    by (simp add: transform_chunk_def)
  then have "transformed cs (rows df) = rows out" by (simp add: transformed_def)
  with o c show ?thesis by simp
qed

lemma length_transformed: "length (transformed cs b) = length (filter (loadable cs) b)"
proof -
  obtain out where o: "transform_chunk cs \<lparr>columns = SOURCE_COLUMNS, rows = b\<rparr> = Inr out"
    and l: "list_all2 (dates_parsed cs) (map (apply_exprs (casts cs)) (filter (loadable cs) b)) (rows out)"
    using transform_chunk_rows [of "\<lparr>columns = SOURCE_COLUMNS, rows = b\<rparr>" cs] by auto
  from l have "length (rows out) = length (filter (loadable cs) b)"
    by (auto dest: list_all2_lengthD)
  with o show ?thesis by (simp add: transformed_def)
qed

lemma loop_raise_negative:
  "k < 0 \<Longrightarrow>
   etl_loop cs lf p h s k off m conn
     = (Raised (ValueError (''negative slice lengths ('' @ str_int k
                            @ '') are invalid for LazyFrame objects'')) m, conn)"
  by (simp add: etl_loop.simps slice_collect_def)

lemma loop_done:
  "0 \<le> k \<Longrightarrow> take (nat k) (drop off (rows lf)) = [] \<Longrightarrow>
   etl_loop cs lf p h s k off m conn = (Returned m, conn @ [Collect off k])"
proof -
  assume "0 \<le> k" and "take (nat k) (drop off (rows lf)) = []"
  then have "slice_collect lf off k = Inr (lf\<lparr>rows := []\<rparr>)"
    by (simp add: slice_collect_def)
  then show ?thesis
    by (subst etl_loop.simps) (simp add: height_def)
qed

lemma loop_raise_columns:
  assumes "0 \<le> k" and "\<not> set SOURCE_COLUMNS \<subseteq> set (columns lf)"
    and "take (nat k) (drop off (rows lf)) = b" and "b \<noteq> []"
  shows "\<exists>c. etl_loop cs lf p h s k off m conn
           = (Raised (ColumnNotFoundError c) (m\<lparr>rows_read := rows_read m + int (length b)\<rparr>),
              conn @ [Collect off k])"
proof -
  let ?chunk = "lf\<lparr>rows := b\<rparr>"
  from assms(2) have "\<not> set SOURCE_COLUMNS \<subseteq> set (columns ?chunk)" by simp
  from transform_chunk_missing [OF this] obtain c
    where "transform_chunk cs ?chunk = Inl (ColumnNotFoundError c)" by blast
  with assms show ?thesis
    by (subst etl_loop.simps) (simp add: slice_collect_def height_def)
qed

lemma loop_step:
  assumes "0 \<le> k" and "set SOURCE_COLUMNS \<subseteq> set (columns lf)"
    and "take (nat k) (drop off (rows lf)) = b" and "b \<noteq> []"
  shows "etl_loop cs lf p h s k off m conn
           = etl_loop cs lf p h s k (off + nat k) (count_batch cs m b)
               (conn @ Collect off k
                  # copy_to_staging [] (map (staging_row p h s) (transformed cs b))
                  @ [Commit, Print (progress_line (count_batch cs m b))])"
proof -
  let ?chunk = "lf\<lparr>rows := b\<rparr>"
  let ?out = "\<lparr>columns = SOURCE_COLUMNS, rows = transformed cs b\<rparr>"
  from assms(2) have "set SOURCE_COLUMNS \<subseteq> set (columns ?chunk)" by simp
  from transform_chunk_transformed [OF this]
  have t: "transform_chunk cs ?chunk = Inr ?out" by simp
  have bc: "build_copy_rows ?out p h s = Inr (map (staging_row p h s) (transformed cs b))"
    by (simp add: build_copy_rows_ok)
  have "int (length b) - int (length (filter (loadable cs) b))
          = int (length (filter (\<lambda>r. \<not> loadable cs r) b))"
    using sum_length_filter_compl [of "loadable cs" b] by simp
  then have m: "m\<lparr>rows_read := rows_read m + int (length b),
               rows_loaded := rows_loaded m + int (length (transformed cs b)),
               rows_rejected := rows_rejected m + (int (length b) - int (length (transformed cs b)))\<rparr>
             = count_batch cs m b"
    by (simp add: count_batch_def length_transformed)
  have c: "copy_to_staging (conn @ [Collect off k]) rs = conn @ Collect off k # copy_to_staging [] rs"
    for rs by (simp add: copy_to_staging_def)
  from assms show ?thesis
    by (subst etl_loop.simps) (simp add: slice_collect_def height_def t bc m c Let_def)
qed

lemma batches_Nil: "batches k [] = []"
  by (simp add: batches.simps)

lemma batches_zero: "batches 0 xs = []"
  by (simp add: batches.simps)

lemma batches_Cons:
  "0 < k \<Longrightarrow> xs \<noteq> [] \<Longrightarrow> batches k xs = take k xs # batches k (drop k xs)"
  by (subst batches.simps) simp

lemma etl_loop_returns:
  assumes "0 \<le> k" and "set SOURCE_COLUMNS \<subseteq> set (columns lf)"
  shows "xs = drop off (rows lf) \<Longrightarrow>
         etl_loop cs lf p h s k off m conn
           = (Returned (last (m # totals cs m (batches (nat k) xs))),
              conn @ batch_events cs p h s k off m (batches (nat k) xs))"
proof (induction "nat k" xs arbitrary: off m conn rule: batches.induct)
  case (1 xs)
  show ?case
  proof (cases "nat k = 0 \<or> xs = []")
    case True
    then have "take (nat k) (drop off (rows lf)) = []" using 1(2) by auto
    moreover from True have "batches (nat k) xs = []" by (auto simp: batches_Nil batches_zero)
    ultimately show ?thesis using loop_done [OF assms(1)] by simp
  next
    case False
    let ?b = "take (nat k) xs"
    from False have b: "?b \<noteq> []" by simp
    from False have bs: "batches (nat k) xs = ?b # batches (nat k) (drop (nat k) xs)"
      by (simp add: batches_Cons)
    have d: "drop (nat k) xs = drop (off + nat k) (rows lf)"
      using 1(2) by (simp add: add.commute)
    from 1(2) have t: "take (nat k) (drop off (rows lf)) = ?b" by simp
    show ?thesis
      by (subst loop_step [OF assms t b]) (simp add: 1(1) [OF False d] bs)
  qed
qed

section \<open>Properties of the hasher\<close>






lemma join_Cons: "join sep (x # xs) = (if xs = [] then x else x @ sep @ join sep xs)"
  by (cases xs) simp_all

lemma append_sep_eq:
  assumes "c \<notin> set x" and "c \<notin> set y" and "x @ c # u = y @ c # v"
  shows "x = y \<and> u = v"
  using assms
proof (induction x arbitrary: y)
  case Nil
  then show ?case by (cases y) auto
next
  case (Cons a x)
  then show ?case by (cases y) auto
qed

lemma join_inj:
  assumes "length xs = length ys"
    and "\<forall>x\<in>set xs. c \<notin> set x" and "\<forall>y\<in>set ys. c \<notin> set y"
    and "join [c] xs = join [c] ys"
  shows "xs = ys"
  using assms
proof (induction xs ys rule: list_induct2)
  case Nil
  then show ?case by simp
next
  case (Cons x xs y ys)
  show ?case
  proof (cases "xs = []")
    case True
    with Cons show ?thesis by (simp add: join_Cons)
  next
    case False
    with Cons.hyps have ys: "ys \<noteq> []" by auto
    from Cons.prems(3) False ys have "x @ c # join [c] xs = y @ c # join [c] ys"
      by (simp add: join_Cons)
    moreover from Cons.prems have "c \<notin> set x" "c \<notin> set y" by auto
    ultimately have "x = y \<and> join [c] xs = join [c] ys" by (rule append_sep_eq [rotated 2])
    with Cons show ?thesis by simp
  qed
qed

lemma word8_of_nat_eq:
  "a < 256 \<Longrightarrow> b < 256 \<Longrightarrow> (word_of_nat a :: 8 word) = word_of_nat b \<Longrightarrow> a = b"
  by (simp add: word_of_nat_eq_iff take_bit_eq_mod)

lemma utf8_char_cases:
  "utf8_char c = (if (of_char c :: nat) < 128 then [word_of_nat (of_char c)]
                  else [word_of_nat (192 + of_char c div 64), word_of_nat (128 + of_char c mod 64)])"
  by (simp add: utf8_char_def Let_def)

lemma utf8_lead_bound: "n < (256::nat) \<Longrightarrow> 192 + n div 64 < 256"
  by arith

lemma utf8_cont_bound: "128 + n mod 64 < (256::nat)"
  by arith

lemma utf8_char_prefix:
  assumes "utf8_char c @ u = utf8_char d @ v"
  shows "c = d \<and> u = v"
proof -
  define n where "n = (of_char c :: nat)"
  define m where "m = (of_char d :: nat)"
  have n: "n < 256" and m: "m < 256" by (simp_all add: n_def m_def)
  have cn: "utf8_char c = (if n < 128 then [word_of_nat n]
              else [word_of_nat (192 + n div 64), word_of_nat (128 + n mod 64)])"
    by (simp add: utf8_char_cases n_def)
  have dm: "utf8_char d = (if m < 128 then [word_of_nat m]
              else [word_of_nat (192 + m div 64), word_of_nat (128 + m mod 64)])"
    by (simp add: utf8_char_cases m_def)
  have "n = m \<and> u = v"
  proof (cases "n < 128")
    case True
    show ?thesis
    proof (cases "m < 128")
      case m1: True
      from assms True m1 have "(word_of_nat n :: 8 word) = word_of_nat m" and "u = v"
        by (simp_all add: cn dm)
      with word8_of_nat_eq [OF n m] show ?thesis by simp
    next
      case False
      from assms True False have "(word_of_nat n :: 8 word) = word_of_nat (192 + m div 64)"
        by (simp add: cn dm)
      from word8_of_nat_eq [OF n utf8_lead_bound [OF m] this] True
      show ?thesis by simp
    qed
  next
    case False
    show ?thesis
    proof (cases "m < 128")
      case True
      from assms True False have "(word_of_nat m :: 8 word) = word_of_nat (192 + n div 64)"
        by (simp add: cn dm)
      from word8_of_nat_eq [OF m utf8_lead_bound [OF n] this] True
      show ?thesis by simp
    next
      case m2: False
      from assms False m2
      have a: "(word_of_nat (192 + n div 64) :: 8 word) = word_of_nat (192 + m div 64)"
        and b: "(word_of_nat (128 + n mod 64) :: 8 word) = word_of_nat (128 + m mod 64)"
        and uv: "u = v"
        by (simp_all add: cn dm)
      from word8_of_nat_eq [OF utf8_lead_bound [OF n] utf8_lead_bound [OF m] a]
      have q: "n div 64 = m div 64" by simp
      from word8_of_nat_eq [OF utf8_cont_bound utf8_cont_bound b]
      have r: "n mod 64 = m mod 64" by simp
      have "n = 64 * (n div 64) + n mod 64" by simp
      also have "\<dots> = 64 * (m div 64) + m mod 64" by (simp only: q r)
      also have "\<dots> = m" by simp
      finally show ?thesis using uv by simp
    qed
  qed
  then show ?thesis by (simp add: n_def m_def)
qed

lemma utf8_char_not_Nil: "utf8_char c \<noteq> []"
  by (simp add: utf8_char_cases)

lemma encode_utf8_inj: "encode_utf8 s = encode_utf8 t \<Longrightarrow> s = t"
proof (induction s arbitrary: t)
  case Nil
  then show ?case by (cases t) (simp_all add: encode_utf8_def utf8_char_not_Nil)
next
  case (Cons c s)
  show ?case
  proof (cases t)
    case Nil
    with Cons.prems show ?thesis by (simp add: encode_utf8_def utf8_char_not_Nil)
  next
    case (Cons d t')
    with Cons.prems have "utf8_char c @ encode_utf8 s = utf8_char d @ encode_utf8 t'"
      by (simp add: encode_utf8_def)
    then have "c = d \<and> encode_utf8 s = encode_utf8 t'" by (rule utf8_char_prefix)
    with Cons.IH Cons show ?thesis by simp
  qed
qed

lemma items_values: "items d cols = Inr vs \<Longrightarrow> map d cols = map Some vs"
  by (induction cols arbitrary: vs) (auto split: option.splits sum.splits)

lemma items_present:
  "list_all (\<lambda>c. d c \<noteq> None) cols \<Longrightarrow> \<exists>vs. items d cols = Inr vs"
  by (induction cols) auto

lemma build_copy_row_Inr:
  assumes "build_copy_row p h s d = Inr row"
  shows "\<exists>key payload. items d BUSINESS_KEY = Inr key \<and> items d SOURCE_COLUMNS = Inr payload
           \<and> row = [PyStr p, PyStr h, PyStr s,
                    PyStr (sha256_from_values (key @ [PyStr s])),
                    PyStr (sha256_from_values (payload @ [PyStr s]))] @ payload"
  using assms
  by (auto simp: build_copy_row_def ROW_FIELDS_eq Let_def split: sum.splits)

lemma build_copy_row_present:
  assumes "list_all (\<lambda>c. d c \<noteq> None) SOURCE_COLUMNS"
  shows "\<exists>row. build_copy_row p h s d = Inr row"
proof -
  from assms BUSINESS_KEY_subset have "list_all (\<lambda>c. d c \<noteq> None) BUSINESS_KEY"
    by (auto simp: list_all_iff)
  from items_present [OF this] obtain key where k: "items d BUSINESS_KEY = Inr key" ..
  from items_present [OF assms] obtain payload where p: "items d SOURCE_COLUMNS = Inr payload" ..
  from k p show ?thesis by (simp add: build_copy_row_def ROW_FIELDS_eq)
qed

definition example_dict :: dict where
  "example_dict = map_of example_record"

definition example_dict_other :: dict where
  "example_dict_other =
     map_of ((''Valor'', PyDecimal 1) # (''CodClase'', PyStr ''B'') # (''Referido'', PyNone)
             # example_record)"

lemma example_dict_present: "list_all (\<lambda>c. example_dict c \<noteq> None) SOURCE_COLUMNS"
  by (simp add: example_dict_def example_record_def SOURCE_COLUMNS_def)

lemma example_dict_other_present: "list_all (\<lambda>c. example_dict_other c \<noteq> None) SOURCE_COLUMNS"
  by (simp add: example_dict_other_def example_record_def SOURCE_COLUMNS_def)

lemma items_length: "items d cols = Inr vs \<Longrightarrow> length vs = length cols"
  by (induction cols arbitrary: vs) (auto split: option.splits sum.splits)

definition payload_message :: "pyval list \<Rightarrow> string \<Rightarrow> u8 list" where
  "payload_message vals tag = encode_utf8 (join ''|'' (map normalize_value (vals @ [PyStr tag])))"

definition collision_a :: "(string \<times> pyval) list" where
  "collision_a =
     (''CodClase'', PyStr ''A|B'') # (''NumeroCuentaInversion'', PyStr ''C'') # example_record"

definition collision_b :: "(string \<times> pyval) list" where
  "collision_b =
     (''CodClase'', PyStr ''A'') # (''NumeroCuentaInversion'', PyStr ''B|C'') # example_record"

definition example_tail :: "pyval list" where
  "example_tail =
     [PyStr ''ACCT-10000001'', PyStr ''CC'', PyInt 1000001, PyInt 7,
      PyDecimal 150050, PyInt 12, example_date 2020 1 15, example_date 2030 1 15, PyInt 3,
      PyInt 1234, PyStr ''WEB'', PyNone, PyInt 20, PyNone, PyInt 21, PyInt 0, PyNone,
      PyInt 365, example_date 2031 6 30, PyNone]"

definition example_dict_class_b :: dict where
  "example_dict_class_b = map_of ((''CodClase'', PyStr ''B'') # example_record)"

lemma example_values:
  "items example_dict SOURCE_COLUMNS = Inr (PyInt 101 # PyStr ''A'' # example_tail)"
  by (simp add: example_dict_def example_record_def SOURCE_COLUMNS_def example_tail_def)

lemma class_b_values:
  "items example_dict_class_b SOURCE_COLUMNS = Inr (PyInt 101 # PyStr ''B'' # example_tail)"
  by (simp add: example_dict_class_b_def example_record_def SOURCE_COLUMNS_def example_tail_def)

lemma collision_values:
  "map (row_of collision_a) SOURCE_COLUMNS =
     [PyInt 101, PyStr ''A|B'', PyStr ''C'', PyStr ''CC'', PyInt 1000001, PyInt 7,
          PyDecimal 150050, PyInt 12, example_date 2020 1 15, example_date 2030 1 15, PyInt 3,
          PyInt 1234, PyStr ''WEB'', PyNone, PyInt 20, PyNone, PyInt 21, PyInt 0, PyNone,
          PyInt 365, example_date 2031 6 30, PyNone]"
  "map (row_of collision_b) SOURCE_COLUMNS =
     [PyInt 101, PyStr ''A'', PyStr ''B|C'', PyStr ''CC'', PyInt 1000001, PyInt 7,
          PyDecimal 150050, PyInt 12, example_date 2020 1 15, example_date 2030 1 15, PyInt 3,
          PyInt 1234, PyStr ''WEB'', PyNone, PyInt 20, PyNone, PyInt 21, PyInt 0, PyNone,
          PyInt 365, example_date 2031 6 30, PyNone]"
  by (simp_all add: collision_a_def collision_b_def row_of_def example_record_def SOURCE_COLUMNS_def)

lemmas eval_str = normalize_value.simps py_str.simps strip_def isspace_def str_int_def digits.simps
  str_decimal_def zero_pad_def isoformat_def isoformat_sep_def example_date_def digit_char_def

lemma tail_canonical:
  "map normalize_value example_tail
   = [''ACCT-10000001'', ''CC'', ''1000001'', ''7'', ''1500.50'', ''12'',
      ''2020-01-15T00:00:00'', ''2030-01-15T00:00:00'', ''3'', ''1234'', ''WEB'', '''', ''20'',
      '''', ''21'', ''0'', '''', ''365'', ''2031-06-30T00:00:00'', '''']"
  by (simp add: example_tail_def eval_str)

lemma separator_shift:
  "sha256_from_values (x # PyStr ''A|B'' # PyStr ''C'' # t)
   = sha256_from_values (x # PyStr ''A'' # PyStr ''B|C'' # t)"
  by (simp add: sha256_from_values_def strip_def isspace_def join_Cons)

lemma staging_row_payload:
  "staging_row p h s r ! 4 = PyStr (sha256_from_values (map r SOURCE_COLUMNS @ [PyStr s]))"
  by (simp add: staging_row_def)

definition collision_frame :: "(string \<times> pyval) list \<Rightarrow> dataframe" where
  "collision_frame kvs = \<lparr>columns = SOURCE_COLUMNS, rows = [row_of kvs]\<rparr>"
















text \<open>
  The name of a staging column for a source column: an underscore before every capital but
  the first, and small letters.
\<close>

definition small :: "char \<Rightarrow> char" where
  "small c =
     (case map_of (zip ''ABCDEFGHIJKLMNOPQRSTUVWXYZ'' ''abcdefghijklmnopqrstuvwxyz'') c of
        None \<Rightarrow> c
      | Some l \<Rightarrow> l)"

fun snake_tail :: "string \<Rightarrow> string" where
  "snake_tail [] = []"
| "snake_tail (c # cs) = (if small c = c then [c] else [CHR ''_'', small c]) @ snake_tail cs"

definition snake_case :: "string \<Rightarrow> string" where
  "snake_case s = (case s of [] \<Rightarrow> [] | c # cs \<Rightarrow> small c # snake_tail cs)"

lemma COPY_COLUMNS_snake_case:
  "COPY_COLUMNS =
     [''process_id'', ''source_hash'', ''source_system'', ''transaction_id'', ''payload_hash'']
     @ map snake_case SOURCE_COLUMNS"
  by (simp add: COPY_COLUMNS_def SOURCE_COLUMNS_def snake_case_def small_def)

lemma length_SOURCE_COLUMNS: "length SOURCE_COLUMNS = 22"
  by (simp add: SOURCE_COLUMNS_def)

lemma length_COPY_COLUMNS: "length COPY_COLUMNS = 27"
  by (simp add: COPY_COLUMNS_def)

lemma csv_row_many: "1 < length vals \<Longrightarrow> csv_row vals = join '','' (map csv_field vals) @ [CHR 0x0D, CHR 0x0A]"
  by (cases vals) (auto simp: csv_row_def Let_def)













definition zero_metrics :: metrics where
  "zero_metrics = \<lparr>rows_read = 0, rows_loaded = 0, rows_rejected = 0\<rparr>"

definition supported :: "path \<Rightarrow> bool" where
  "supported input_path =
     (lower (path_suffix input_path) = ''.parquet'' \<or> lower (path_suffix input_path) = ''.csv'')"

lemma scan_supported: "supported input_path \<Longrightarrow> scan_input_file file input_path = Inr file"
  by (auto simp: supported_def scan_input_file_def Let_def)

lemma scan_unsupported:
  "\<not> supported input_path \<Longrightarrow> \<exists>msg. scan_input_file file input_path = Inl (ValueError msg)"
  by (auto simp: supported_def scan_input_file_def Let_def)

lemma run_etl_unsupported:
  assumes "\<not> supported input_path"
  shows "\<exists>msg. run_etl cs file input_path p h s c k = (Raised (ValueError msg) zero_metrics, [])"
proof -
  from scan_unsupported [OF assms] obtain msg
    where "scan_input_file file input_path = Inl (ValueError msg)" by blast
  then show ?thesis by (simp add: run_etl_def zero_metrics_def Let_def)
qed

lemma run_etl_negative:
  assumes "supported input_path" and "k < 0"
  shows "\<exists>msg. run_etl cs file input_path p h s c k
           = (Raised (ValueError msg) zero_metrics, [Connect c, Rollback, Close])"
  by (simp add: run_etl_def scan_supported [OF assms(1)] loop_raise_negative [OF assms(2)]
      zero_metrics_def Let_def)

lemma etl_loop_no_batch:
  assumes "0 \<le> k" and "batches (nat k) (drop off (rows lf)) = []"
  shows "etl_loop cs lf p h s k off m conn = (Returned m, conn @ [Collect off k])"
proof -
  from assms(2) have "nat k = 0 \<or> drop off (rows lf) = []"
    by (subst (asm) batches.simps) (simp split: if_splits)
  then have "take (nat k) (drop off (rows lf)) = []" by auto
  from loop_done [OF assms(1) this] show ?thesis .
qed

lemma etl_loop_returns':
  assumes "0 \<le> k"
    and "set SOURCE_COLUMNS \<subseteq> set (columns lf) \<or> batches (nat k) (drop off (rows lf)) = []"
  shows "etl_loop cs lf p h s k off m conn
           = (Returned (last (m # totals cs m (batches (nat k) (drop off (rows lf))))),
              conn @ batch_events cs p h s k off m (batches (nat k) (drop off (rows lf))))"
proof (cases "batches (nat k) (drop off (rows lf)) = []")
  case True
  with etl_loop_no_batch [OF assms(1) True] show ?thesis by simp
next
  case False
  with assms(2) have "set SOURCE_COLUMNS \<subseteq> set (columns lf)" by simp
  from etl_loop_returns [OF assms(1) this refl] show ?thesis .
qed

lemma run_etl_returns:
  assumes "supported input_path" and "0 \<le> k"
    and "set SOURCE_COLUMNS \<subseteq> set (columns file) \<or> batches (nat k) (rows file) = []"
  shows "run_etl cs file input_path p h s c k
           = (Returned (last (zero_metrics # totals cs zero_metrics (batches (nat k) (rows file)))),
              Connect c # batch_events cs p h s k 0 zero_metrics (batches (nat k) (rows file))
              @ [Commit, Close])"
proof -
  from assms(3) have "set SOURCE_COLUMNS \<subseteq> set (columns file)
      \<or> batches (nat k) (drop 0 (rows file)) = []" by simp
  from etl_loop_returns' [OF assms(2) this, of cs p h s zero_metrics "[Connect c]"]
  show ?thesis
    by (simp add: run_etl_def scan_supported [OF assms(1)] zero_metrics_def [symmetric] Let_def
        del: last.simps)
qed

lemma run_etl_missing_column:
  assumes "supported input_path" and "0 \<le> k"
    and "\<not> set SOURCE_COLUMNS \<subseteq> set (columns file)" and "batches (nat k) (rows file) \<noteq> []"
  shows "\<exists>col. run_etl cs file input_path p h s c k
           = (Raised (ColumnNotFoundError col)
                (zero_metrics\<lparr>rows_read := int (length (take (nat k) (rows file)))\<rparr>),
              [Connect c, Collect 0 k, Rollback, Close])"
proof -
  from assms(4) have "take (nat k) (drop 0 (rows file)) \<noteq> []"
    by (subst (asm) batches.simps) (auto split: if_splits)
  from loop_raise_columns [OF assms(2,3) refl this, of cs p h s zero_metrics "[Connect c]"]
  show ?thesis
    by (auto simp: run_etl_def scan_supported [OF assms(1)] zero_metrics_def Let_def)
qed

fun prints :: "event list \<Rightarrow> string list" where
  "prints [] = []"
| "prints (Print l # ev) = l # prints ev"
| "prints (e # ev) = prints ev"

fun collects :: "event list \<Rightarrow> (nat \<times> int) list" where
  "collects [] = []"
| "collects (Collect off k # ev) = (off, k) # collects ev"
| "collects (e # ev) = collects ev"

lemma prints_append: "prints (a @ b) = prints a @ prints b"
  by (induction a rule: prints.induct) simp_all

lemma collects_append: "collects (a @ b) = collects a @ collects b"
  by (induction a rule: collects.induct) simp_all

lemma prints_copy: "prints (copy_to_staging [] rs) = []"
  by (simp add: copy_to_staging_def)

lemma collects_copy: "collects (copy_to_staging [] rs) = []"
  by (simp add: copy_to_staging_def)

lemma prints_batch_events:
  "prints (batch_events cs p h s k off m bs) = map progress_line (totals cs m bs)"
  by (induction bs arbitrary: off m) (simp_all add: prints_append prints_copy)

lemma collects_batch_events:
  "collects (batch_events cs p h s k off m bs)
   = map (\<lambda>i. (off + i * nat k, k)) [0..<Suc (length bs)]"
proof (induction bs arbitrary: off m)
  case Nil
  show ?case by simp
next
  case (Cons b bs)
  have "map (\<lambda>i. (off + i * nat k, k)) [0..<Suc (Suc (length bs))]
        = (off, k) # map (\<lambda>i. (off + i * nat k, k)) (map Suc [0..<Suc (length bs)])"
    by (simp only: map_Suc_upt upt_conv_Cons [of 0 "Suc (Suc (length bs))"]) simp
  also have "\<dots> = (off, k) # map (\<lambda>i. (off + nat k + i * nat k, k)) [0..<Suc (length bs)]"
    by (simp add: comp_def add.assoc)
  finally show ?case
    by (simp add: collects_append collects_copy Cons.IH del: upt_Suc)
qed

lemma concat_batches: "0 < k \<Longrightarrow> concat (batches k xs) = xs"
proof (induction k xs rule: batches.induct)
  case (1 k xs)
  show ?case
  proof (cases "xs = []")
    case True
    then show ?thesis by (simp add: batches_Nil)
  next
    case False
    with 1 show ?thesis by (simp add: batches_Cons)
  qed
qed

lemma batches_not_Nil: "b \<in> set (batches k xs) \<Longrightarrow> b \<noteq> []"
proof (induction k xs rule: batches.induct)
  case (1 k xs)
  show ?case
  proof (cases "k = 0 \<or> xs = []")
    case True
    with 1(2) show ?thesis by (auto simp: batches_Nil batches_zero)
  next
    case False
    with 1 show ?thesis by (auto simp: batches_Cons)
  qed
qed

lemma div_add_self_Suc: "0 < k \<Longrightarrow> (m + k) div k = Suc (m div (k::nat))"
  by (simp add: div_add_self2)

lemma div_short_batch: "0 < n \<Longrightarrow> \<not> k \<le> n \<Longrightarrow> (n + k - 1) div k = (1::nat)"
  by (rule div_nat_eqI) simp_all

lemma length_batches: "0 < k \<Longrightarrow> length (batches k xs) = (length xs + k - 1) div k"
proof (induction k xs rule: batches.induct)
  case (1 k xs)
  show ?case
  proof (cases "xs = []")
    case True
    with 1(2) show ?thesis by (simp add: batches_Nil)
  next
    case False
    with 1 have ih: "length (batches k (drop k xs)) = (length xs - k + k - 1) div k"
      by simp
    from False have n: "0 < length xs" by simp
    have "Suc ((length xs - k + k - 1) div k) = (length xs + k - 1) div k"
    proof (cases "k \<le> length xs")
      case True
      then have a: "length xs - k + k - 1 = length xs - 1" by simp
      have b: "length xs + k - 1 = (length xs - 1) + k"
        using n by (cases "length xs") simp_all
      show ?thesis by (simp only: a b div_add_self_Suc [OF 1(2)])
    next
      case nk: False
      with n have "(length xs - k + k - 1) div k = 0" by simp
      with div_short_batch [OF n nk] show ?thesis by (simp only:)
    qed
    with ih have "length (take k xs # batches k (drop k xs)) = (length xs + k - 1) div k"
      by (simp only: list.size length_Cons)
    with False 1(2) show ?thesis by (simp only: batches_Cons [OF 1(2) False])
  qed
qed

section \<open>The claims\<close>

subsection \<open>Unsupported input formats\<close>

lemma example_txt_suffix: "lower (path_suffix [''data'', ''input.txt'']) = ''.txt''"
  by (simp add: path_suffix_def path_name_def rfind_dot_def lower_def lower_char_def Let_def)

text \<open>
  Claim C6. When the extension of the input path, compared as \<open>scan_input_file\<close> compares it
  (in lower case), is neither \<open>.parquet\<close> nor \<open>.csv\<close>, \<open>run_etl\<close> is left by the \<open>ValueError\<close>
  of \<open>scan_input_file\<close> (the unsupported-format error) before the connection is opened and
  before any batch is read: no event has happened, and the three counters are still zero.
\<close>

theorem run_etl_unsupported_extension:
  assumes "lower (path_suffix input_path) \<noteq> ''.parquet''"
    and "lower (path_suffix input_path) \<noteq> ''.csv''"
  shows "run_etl cs file input_path process_id source_hash source_system connection_string
           chunk_size
         = (Raised (ValueError
                     (''Formato no soportado: ''
                      @ (if path_suffix input_path = '''' then ''[sin extensi'' @ [CHR 0xF3] @ ''n]''
                         else path_suffix input_path)
                      @ ''. Use un archivo .parquet o .csv''))
              \<lparr>rows_read = 0, rows_loaded = 0, rows_rejected = 0\<rparr>, [])"
  using assms by (simp add: run_etl_def scan_input_file_def Let_def)

theorem run_etl_unsupported_extension_witness:
  "lower (path_suffix [''data'', ''input.txt'']) \<noteq> ''.parquet''
   \<and> lower (path_suffix [''data'', ''input.txt'']) \<noteq> ''.csv''
   \<and> run_etl example_coercions example_frame [''data'', ''input.txt''] ''P1'' ''HASH''
         ''ExternalProvider'' ''conn'' 2
       = (Raised (ValueError ''Formato no soportado: .txt. Use un archivo .parquet o .csv'')
            \<lparr>rows_read = 0, rows_loaded = 0, rows_rejected = 0\<rparr>, [])"
proof -
  have h1: "lower (path_suffix [''data'', ''input.txt'']) \<noteq> ''.parquet''"
    by (simp add: example_txt_suffix)
  have h2: "lower (path_suffix [''data'', ''input.txt'']) \<noteq> ''.csv''"
    by (simp add: example_txt_suffix)
  have s: "path_suffix [''data'', ''input.txt''] = ''.txt''"
    by (simp add: path_suffix_def path_name_def rfind_dot_def Let_def)
  from run_etl_unsupported_extension [OF h1 h2, of example_coercions example_frame "''P1''"
      "''HASH''" "''ExternalProvider''" "''conn''" 2] h1 h2
  show ?thesis by (simp add: s)
qed

subsection \<open>The business-key digest\<close>

text \<open>
  Claim C4. The business-key digest of a staged row (its fourth value, the column
  \<open>transaction_id\<close>) is a function of the canonical forms of six inputs: the fund code, the
  account number, the holder identifier, the address code, the constitution date and the
  source-system tag. Two records and tags whose six canonical inputs agree get the same
  digest, whatever their other fields, process identifiers and file digests are.
\<close>

theorem business_key_digest_of_six_inputs:
  assumes "build_copy_row p1 h1 s1 d1 = Inr row1"
    and "build_copy_row p2 h2 s2 d2 = Inr row2"
    and "map (\<lambda>c. map_option normalize_value (d1 c)) BUSINESS_KEY
         = map (\<lambda>c. map_option normalize_value (d2 c)) BUSINESS_KEY"
    and "normalize_value (PyStr s1) = normalize_value (PyStr s2)"
  shows "row1 ! 3 = row2 ! 3 \<and> COPY_COLUMNS ! 3 = ''transaction_id''
         \<and> BUSINESS_KEY = [''CodFondo'', ''NumeroCuentaInversion'', ''Identificacion'',
                            ''CodDireccion'', ''FechaConstitucion'']"
proof -
  from build_copy_row_Inr [OF assms(1)] obtain key1 where
    k1: "items d1 BUSINESS_KEY = Inr key1"
    and r1: "row1 ! 3 = PyStr (sha256_from_values (key1 @ [PyStr s1]))" by auto
  from build_copy_row_Inr [OF assms(2)] obtain key2 where
    k2: "items d2 BUSINESS_KEY = Inr key2"
    and r2: "row2 ! 3 = PyStr (sha256_from_values (key2 @ [PyStr s2]))" by auto
  have "map (map_option normalize_value) (map d1 BUSINESS_KEY)
        = map (map_option normalize_value) (map d2 BUSINESS_KEY)"
    using assms(3) by (simp add: comp_def)
  then have "map Some (map normalize_value key1) = map Some (map normalize_value key2)"
    by (simp add: items_values [OF k1] items_values [OF k2] comp_def)
  then have "map normalize_value key1 = map normalize_value key2"
    using inj_map_eq_map [OF inj_Some] by blast
  with assms(4) have "sha256_from_values (key1 @ [PyStr s1]) = sha256_from_values (key2 @ [PyStr s2])"
    by (simp add: sha256_from_values_def)
  with r1 r2 show ?thesis by (simp add: COPY_COLUMNS_def BUSINESS_KEY_def)
qed

theorem business_key_digest_of_six_inputs_witness:
  "map (\<lambda>c. map_option normalize_value (example_dict c)) BUSINESS_KEY
     = map (\<lambda>c. map_option normalize_value (example_dict_other c)) BUSINESS_KEY
   \<and> normalize_value (PyStr ''ExternalProvider'') = normalize_value (PyStr '' ExternalProvider '')
   \<and> example_dict ''Valor'' \<noteq> example_dict_other ''Valor''
   \<and> (\<exists>row1 row2.
         build_copy_row ''P1'' ''H1'' ''ExternalProvider'' example_dict = Inr row1
         \<and> build_copy_row ''P2'' ''H2'' '' ExternalProvider '' example_dict_other = Inr row2
         \<and> row1 ! 3 = row2 ! 3)"
proof -
  have a: "map (\<lambda>c. map_option normalize_value (example_dict c)) BUSINESS_KEY
     = map (\<lambda>c. map_option normalize_value (example_dict_other c)) BUSINESS_KEY"
    by (simp add: example_dict_def example_dict_other_def example_record_def BUSINESS_KEY_def)
  have b: "normalize_value (PyStr ''ExternalProvider'') = normalize_value (PyStr '' ExternalProvider '')"
    by (simp add: strip_def isspace_def)
  have c: "example_dict ''Valor'' \<noteq> example_dict_other ''Valor''"
    by (simp add: example_dict_def example_dict_other_def example_record_def)
  from build_copy_row_present [OF example_dict_present] obtain row1
    where r1: "build_copy_row ''P1'' ''H1'' ''ExternalProvider'' example_dict = Inr row1" by blast
  from build_copy_row_present [OF example_dict_other_present] obtain row2
    where r2: "build_copy_row ''P2'' ''H2'' '' ExternalProvider '' example_dict_other = Inr row2"
    by blast
  from business_key_digest_of_six_inputs [OF r1 r2 a b] have "row1 ! 3 = row2 ! 3" by simp
  with a b c r1 r2 show ?thesis by blast
qed

subsection \<open>The payload digest\<close>

text \<open>
  Claim C5, as stated, fails. Two records that differ in two source fields, the class code
  (\<open>A|B\<close> against \<open>A\<close>) and the account number (\<open>C\<close> against \<open>B|C\<close>), with different canonical
  values, get the same payload digest (the fifth value of the staged row): the canonical
  values are joined with \<open>|\<close> and nothing escapes a \<open>|\<close> inside a value.
\<close>

theorem payload_digest_separator_collision:
  "build_copy_rows (collision_frame collision_a) ''P1'' ''HASH'' ''ExternalProvider''
     = Inr [staging_row ''P1'' ''HASH'' ''ExternalProvider'' (row_of collision_a)]
   \<and> build_copy_rows (collision_frame collision_b) ''P1'' ''HASH'' ''ExternalProvider''
     = Inr [staging_row ''P1'' ''HASH'' ''ExternalProvider'' (row_of collision_b)]
   \<and> row_of collision_a ''CodClase'' = PyStr ''A|B''
   \<and> row_of collision_b ''CodClase'' = PyStr ''A''
   \<and> normalize_value (row_of collision_a ''CodClase'')
       \<noteq> normalize_value (row_of collision_b ''CodClase'')
   \<and> staging_row ''P1'' ''HASH'' ''ExternalProvider'' (row_of collision_a) ! 4
       = staging_row ''P1'' ''HASH'' ''ExternalProvider'' (row_of collision_b) ! 4"
proof -
  have a: "row_of collision_a ''CodClase'' = PyStr ''A|B''"
    and b: "row_of collision_b ''CodClase'' = PyStr ''A''"
    by (simp_all add: row_of_def collision_a_def collision_b_def)
  have n: "normalize_value (row_of collision_a ''CodClase'')
             \<noteq> normalize_value (row_of collision_b ''CodClase'')"
    by (simp add: a b strip_def isspace_def)
  have r: "build_copy_rows (collision_frame kvs) p h s = Inr [staging_row p h s (row_of kvs)]"
    for kvs p h s
    by (simp add: build_copy_rows_ok collision_frame_def)
  have d: "staging_row ''P1'' ''HASH'' ''ExternalProvider'' (row_of collision_a) ! 4
       = staging_row ''P1'' ''HASH'' ''ExternalProvider'' (row_of collision_b) ! 4"
    by (simp only: staging_row_payload collision_values append_Cons separator_shift)
  from a b n r d show ?thesis by simp
qed

text \<open>
  Claim C5, amended. The payload digest (the fifth value of the staged row) is the SHA-256
  digest, in hexadecimal, of the UTF-8 bytes of the canonical forms of the 22 source fields
  and the source-system tag joined with \<open>|\<close>. Equal canonical inputs give equal digests. When
  no canonical value holds a \<open>|\<close>, inputs that differ in some canonical value give different
  byte strings to SHA-256, so that the digests differ unless SHA-256 collides.
\<close>

theorem payload_digest_of_canonical_inputs:
  assumes "build_copy_row p1 h1 s1 d1 = Inr row1"
    and "build_copy_row p2 h2 s2 d2 = Inr row2"
    and "items d1 SOURCE_COLUMNS = Inr v1"
    and "items d2 SOURCE_COLUMNS = Inr v2"
  shows "row1 ! 4 = PyStr (hexdigest (sha256 (payload_message v1 s1)))
       \<and> row2 ! 4 = PyStr (hexdigest (sha256 (payload_message v2 s2)))
       \<and> (map normalize_value (v1 @ [PyStr s1]) = map normalize_value (v2 @ [PyStr s2])
            \<longrightarrow> row1 ! 4 = row2 ! 4)
       \<and> (list_all (\<lambda>x. CHR ''|'' \<notin> set x) (map normalize_value (v1 @ [PyStr s1]))
            \<and> list_all (\<lambda>x. CHR ''|'' \<notin> set x) (map normalize_value (v2 @ [PyStr s2]))
            \<and> map normalize_value (v1 @ [PyStr s1]) \<noteq> map normalize_value (v2 @ [PyStr s2])
            \<longrightarrow> payload_message v1 s1 \<noteq> payload_message v2 s2)"
proof -
  let ?c1 = "map normalize_value (v1 @ [PyStr s1])"
  let ?c2 = "map normalize_value (v2 @ [PyStr s2])"
  from build_copy_row_Inr [OF assms(1)] assms(3)
  have r1: "row1 ! 4 = PyStr (hexdigest (sha256 (payload_message v1 s1)))"
    by (auto simp: payload_message_def sha256_from_values_def)
  from build_copy_row_Inr [OF assms(2)] assms(4)
  have r2: "row2 ! 4 = PyStr (hexdigest (sha256 (payload_message v2 s2)))"
    by (auto simp: payload_message_def sha256_from_values_def)
  have eq: "?c1 = ?c2 \<longrightarrow> row1 ! 4 = row2 ! 4"
    by (simp add: r1 r2 payload_message_def)
  have len: "length ?c1 = length ?c2"
    using items_length [OF assms(3)] items_length [OF assms(4)] by simp
  have inj: "?c1 = ?c2"
    if "list_all (\<lambda>x. CHR ''|'' \<notin> set x) ?c1" and "list_all (\<lambda>x. CHR ''|'' \<notin> set x) ?c2"
      and "payload_message v1 s1 = payload_message v2 s2"
  proof -
    from that(3) have "join ''|'' ?c1 = join ''|'' ?c2"
      unfolding payload_message_def by (rule encode_utf8_inj)
    moreover from that(1) have "\<forall>x\<in>set ?c1. CHR ''|'' \<notin> set x" by (simp only: list_all_iff)
    moreover from that(2) have "\<forall>x\<in>set ?c2. CHR ''|'' \<notin> set x" by (simp only: list_all_iff)
    ultimately show ?thesis using len by (intro join_inj [of ?c1 ?c2 "CHR ''|''"]) auto
  qed
  from r1 r2 eq inj show ?thesis by blast
qed

theorem payload_digest_of_canonical_inputs_witness:
  "\<exists>row1 row2 row3.
     build_copy_row ''P1'' ''H1'' ''ExternalProvider'' example_dict = Inr row1
     \<and> build_copy_row ''P2'' ''H2'' '' ExternalProvider '' example_dict = Inr row2
     \<and> build_copy_row ''P1'' ''H1'' ''ExternalProvider'' example_dict_class_b = Inr row3
     \<and> items example_dict SOURCE_COLUMNS = Inr (PyInt 101 # PyStr ''A'' # example_tail)
     \<and> items example_dict_class_b SOURCE_COLUMNS = Inr (PyInt 101 # PyStr ''B'' # example_tail)
     \<and> map normalize_value ((PyInt 101 # PyStr ''A'' # example_tail) @ [PyStr ''ExternalProvider''])
       = map normalize_value ((PyInt 101 # PyStr ''A'' # example_tail) @ [PyStr '' ExternalProvider ''])
     \<and> row1 ! 4 = row2 ! 4
     \<and> list_all (\<lambda>x. CHR ''|'' \<notin> set x)
          (map normalize_value ((PyInt 101 # PyStr ''A'' # example_tail) @ [PyStr ''ExternalProvider'']))
     \<and> list_all (\<lambda>x. CHR ''|'' \<notin> set x)
          (map normalize_value ((PyInt 101 # PyStr ''B'' # example_tail) @ [PyStr ''ExternalProvider'']))
     \<and> map normalize_value ((PyInt 101 # PyStr ''A'' # example_tail) @ [PyStr ''ExternalProvider''])
       \<noteq> map normalize_value ((PyInt 101 # PyStr ''B'' # example_tail) @ [PyStr ''ExternalProvider''])
     \<and> payload_message (PyInt 101 # PyStr ''A'' # example_tail) ''ExternalProvider''
       \<noteq> payload_message (PyInt 101 # PyStr ''B'' # example_tail) ''ExternalProvider''"
proof -
  let ?va = "PyInt 101 # PyStr ''A'' # example_tail"
  let ?vb = "PyInt 101 # PyStr ''B'' # example_tail"
  have present_b: "list_all (\<lambda>c. example_dict_class_b c \<noteq> None) SOURCE_COLUMNS"
    by (simp add: example_dict_class_b_def example_record_def SOURCE_COLUMNS_def)
  from build_copy_row_present [OF example_dict_present] obtain row1
    where r1: "build_copy_row ''P1'' ''H1'' ''ExternalProvider'' example_dict = Inr row1" by blast
  from build_copy_row_present [OF example_dict_present] obtain row2
    where r2: "build_copy_row ''P2'' ''H2'' '' ExternalProvider '' example_dict = Inr row2" by blast
  from build_copy_row_present [OF present_b] obtain row3
    where r3: "build_copy_row ''P1'' ''H1'' ''ExternalProvider'' example_dict_class_b = Inr row3"
    by blast
  have ca: "map normalize_value (?va @ [PyStr ''ExternalProvider''])
              = ''101'' # ''A'' # map normalize_value example_tail @ [''ExternalProvider'']"
    and ca': "map normalize_value (?va @ [PyStr '' ExternalProvider ''])
              = ''101'' # ''A'' # map normalize_value example_tail @ [''ExternalProvider'']"
    and cb: "map normalize_value (?vb @ [PyStr ''ExternalProvider''])
              = ''101'' # ''B'' # map normalize_value example_tail @ [''ExternalProvider'']"
    by (simp_all add: normalize_value.simps py_str.simps strip_def isspace_def str_int_def
        digits.simps digit_char_def)
  have same: "map normalize_value (?va @ [PyStr ''ExternalProvider''])
                = map normalize_value (?va @ [PyStr '' ExternalProvider ''])"
    by (simp only: ca ca')
  have na: "list_all (\<lambda>x. CHR ''|'' \<notin> set x) (map normalize_value (?va @ [PyStr ''ExternalProvider'']))"
    by (simp only: ca tail_canonical) simp
  have nb: "list_all (\<lambda>x. CHR ''|'' \<notin> set x) (map normalize_value (?vb @ [PyStr ''ExternalProvider'']))"
    by (simp only: cb tail_canonical) simp
  have diff: "map normalize_value (?va @ [PyStr ''ExternalProvider''])
                \<noteq> map normalize_value (?vb @ [PyStr ''ExternalProvider''])"
    by (simp only: ca cb) simp
  from payload_digest_of_canonical_inputs [OF r1 r2 example_values example_values] same
  have e: "row1 ! 4 = row2 ! 4" by blast
  from payload_digest_of_canonical_inputs [OF r1 r3 example_values class_b_values] na nb diff
  have m: "payload_message ?va ''ExternalProvider'' \<noteq> payload_message ?vb ''ExternalProvider''"
    by blast
  from r1 r2 r3 example_values class_b_values same e na nb diff m show ?thesis by blast
qed

subsection \<open>Canonical values and digests\<close>



subsection \<open>The bulk loader\<close>

text \<open>
  Claim C8. \<open>copy_to_staging\<close> leaves the connection as it is for an empty list of rows. For a
  list that is not empty it adds one \<open>COPY\<close>, whose data are the rows of the batch in order,
  each written as its values in order, separated by commas and ended by CR LF. A row built by
  \<open>build_copy_row\<close> holds the process id, the file digest, the source-system tag, the
  business-key digest, the payload digest and then the 22 fields in the order of
  \<open>SOURCE_COLUMNS\<close>: one value for each of the 27 columns that the \<open>COPY\<close> statement names,
  in the same order.
\<close>

theorem copy_to_staging_one_bulk_insert:
  assumes "rs \<noteq> []" and "build_copy_row p h s d = Inr row"
  shows "copy_to_staging conn [] = conn
       \<and> copy_to_staging conn rs = conn @ [Copy copy_sql (concat (map csv_row rs))]
       \<and> copy_sql = [CHR 0x0A] @ ''        COPY staging_transactions (''
                       @ join '', '' COPY_COLUMNS @ '')'' @ [CHR 0x0A]
                       @ ''        FROM STDIN WITH (FORMAT CSV)'' @ [CHR 0x0A] @ ''    ''
       \<and> COPY_COLUMNS
           = [''process_id'', ''source_hash'', ''source_system'', ''transaction_id'',
              ''payload_hash''] @ map snake_case SOURCE_COLUMNS
       \<and> (\<exists>key payload.
             items d BUSINESS_KEY = Inr key \<and> items d SOURCE_COLUMNS = Inr payload
             \<and> row = [PyStr p, PyStr h, PyStr s, PyStr (sha256_from_values (key @ [PyStr s])),
                      PyStr (sha256_from_values (payload @ [PyStr s]))] @ payload)
       \<and> length row = length COPY_COLUMNS
       \<and> csv_row row = join '','' (map csv_field row) @ [CHR 0x0D, CHR 0x0A]"
proof -
  from build_copy_row_Inr [OF assms(2)] obtain key payload where
    k: "items d BUSINESS_KEY = Inr key" and pl: "items d SOURCE_COLUMNS = Inr payload"
    and r: "row = [PyStr p, PyStr h, PyStr s, PyStr (sha256_from_values (key @ [PyStr s])),
                   PyStr (sha256_from_values (payload @ [PyStr s]))] @ payload"
    by blast
  from items_length [OF pl] r have l: "length row = 27" by (simp add: length_SOURCE_COLUMNS)
  then have c: "csv_row row = join '','' (map csv_field row) @ [CHR 0x0D, CHR 0x0A]"
    by (simp add: csv_row_many)
  have e: "copy_to_staging conn [] = conn" by (simp add: copy_to_staging_def)
  from assms(1) have n: "copy_to_staging conn rs = conn @ [Copy copy_sql (concat (map csv_row rs))]"
    by (simp add: copy_to_staging_def writerows_def)
  from e n k pl r l c COPY_COLUMNS_snake_case show ?thesis
    by (simp only: length_COPY_COLUMNS copy_sql_def) blast
qed

theorem copy_to_staging_one_bulk_insert_witness:
  "\<exists>row. build_copy_row ''P1'' ''H1'' ''ExternalProvider'' example_dict = Inr row
         \<and> [row] \<noteq> []
         \<and> copy_to_staging [Connect ''conn''] [] = [Connect ''conn'']
         \<and> copy_to_staging [Connect ''conn''] [row] = [Connect ''conn'', Copy copy_sql (csv_row row)]
         \<and> length row = 27"
proof -
  from build_copy_row_present [OF example_dict_present] obtain row
    where r: "build_copy_row ''P1'' ''H1'' ''ExternalProvider'' example_dict = Inr row" by blast
  have n: "[row] \<noteq> []" by simp
  from copy_to_staging_one_bulk_insert [OF n r, of "[Connect ''conn'']"] r
  show ?thesis by (simp add: length_COPY_COLUMNS)
qed

subsection \<open>The transformer\<close>



end
